theory Spec2Isabelle
  imports Complex_Main
begin

section \<open>Strings of the log console\<close>

text \<open>
  The console of \<^verbatim>\<open>web/js/global.js\<close> (\<^verbatim>\<open>BjornUI.ConsoleSSE\<close>) works on JavaScript
  strings. A string is modelled as a list of characters, one \<^typ>\<open>char\<close> per code unit
  (code units 0 to 255). The regular expressions of the source carry no \<^verbatim>\<open>u\<close>
  flag, so \<^verbatim>\<open>\w\<close>, \<^verbatim>\<open>\d\<close> and \<^verbatim>\<open>\b\<close> look at ASCII letters, digits and the
  underscore only; every other code unit is a non-word character.
\<close>

definition is_digit :: "char \<Rightarrow> bool" where
  "is_digit c \<longleftrightarrow> c \<in> set ''0123456789''"

definition is_word :: "char \<Rightarrow> bool" where
  "is_word c \<longleftrightarrow>
     c \<in> set ''abcdefghijklmnopqrstuvwxyzABCDEFGHIJKLMNOPQRSTUVWXYZ0123456789_''"

text \<open>
  \<^verbatim>\<open>String.prototype.trim\<close> removes white space and line terminators at both ends:
  TAB, LF, VT, FF, CR, SPACE and NBSP are the ones with a code unit below 256.
\<close>

definition is_space :: "char \<Rightarrow> bool" where
  "is_space c \<longleftrightarrow> of_char c \<in> set [9, 10, 11, 12, 13, 32, 160 :: nat]"

definition trim :: "string \<Rightarrow> string" where
  "trim s = rev (dropWhile is_space (rev (dropWhile is_space s)))"

text \<open>
  \<^verbatim>\<open>toUpperCase\<close> is only ever applied to the text matched by the level pattern, which
  consists of ASCII letters and spaces; on those it maps a to z onto A to Z.
\<close>

definition upper_char :: "char \<Rightarrow> char" where
  "upper_char c =
     (case map_of (zip ''abcdefghijklmnopqrstuvwxyz'' ''ABCDEFGHIJKLMNOPQRSTUVWXYZ'') c of
        Some u \<Rightarrow> u
      | None \<Rightarrow> c)"

definition toUpperCase :: "string \<Rightarrow> string" where
  "toUpperCase s = map upper_char s"

text \<open>Decimal rendering of a number, as template literals and \<^verbatim>\<open>String(v)\<close> give it.\<close>

definition digit_char :: "nat \<Rightarrow> char" where
  "digit_char k = ''0123456789'' ! (k mod 10)"

fun dec :: "nat \<Rightarrow> string" where
  "dec n = (if n < 10 then [digit_char n] else dec (n div 10) @ [digit_char n])"

declare dec.simps [simp del]

definition dec_int :: "int \<Rightarrow> string" where
  "dec_int v = (if v < 0 then CHR ''-'' # dec (nat (- v)) else dec (nat v))"

text \<open>\<^verbatim>\<open>\b\<close> after a match that ends in a word character: the next character, if any,
  is not a word character.\<close>

definition word_ahead :: "string \<Rightarrow> bool" where
  "word_ahead s \<longleftrightarrow> (case s of [] \<Rightarrow> False | c # _ \<Rightarrow> is_word c)"

section \<open>Line decoration\<close>

subsection \<open>hueFromString\<close>

text \<open>
  \<^verbatim>\<open>for (...) h = (h*31 + str.charCodeAt(i)) >>> 0; return h % 360;\<close>
  The shift \<^verbatim>\<open>>>> 0\<close> reduces modulo \<open>2 ^ 32\<close>.
\<close>

definition hueFromString :: "string \<Rightarrow> int" where
  "hueFromString str = foldl (\<lambda>h c. (h * 31 + of_char c) mod 2 ^ 32) 0 str mod 360"

subsection \<open>Pass 1: source files\<close>

text \<open>
  The guard of the replacement callback,
  \<^verbatim>\<open>/<span[^>]*class="[^"]*logfile/.test(m)\<close>, on the matched text \<open>m\<close>.
\<close>

definition starts_with :: "string \<Rightarrow> string \<Rightarrow> bool" where
  "starts_with p s \<longleftrightarrow> take (length p) s = p"

definition logfile_after_class :: "string \<Rightarrow> bool" where
  "logfile_after_class v \<longleftrightarrow>
     (\<exists>j \<in> set [0 ..< Suc (length (takeWhile (\<lambda>c. c \<noteq> CHR 0x22) v))].
        starts_with ''logfile'' (drop j v))"

definition class_after_span :: "string \<Rightarrow> bool" where
  "class_after_span u \<longleftrightarrow>
     (\<exists>k \<in> set [0 ..< Suc (length (takeWhile (\<lambda>c. c \<noteq> CHR ''>'') u))].
        starts_with (''class='' @ [CHR 0x22]) (drop k u) \<and> logfile_after_class (drop (k + 7) u))"

definition wrapped_test :: "string \<Rightarrow> bool" where
  "wrapped_test m \<longleftrightarrow>
     (\<exists>i \<in> set [0 ..< Suc (length m)].
        starts_with ''<span'' (drop i m) \<and> class_after_span (drop (i + 5) m))"

definition logfile_open :: "int \<Rightarrow> string" where
  "logfile_open hue =
     ''<span class='' @ [CHR 0x22] @ ''logfile'' @ [CHR 0x22] @ '' style='' @ [CHR 0x22]
       @ ''--h:'' @ dec_int hue @ [CHR 0x22] @ ''>''"

definition span_close :: string where
  "span_close = ''</span>''"

definition wrap_file :: "string \<Rightarrow> string" where
  "wrap_file m =
     (if wrapped_test m then m
      else logfile_open (hueFromString m) @ m @ span_close)"

text \<open>
  One attempt of \<^verbatim>\<open>/\b([A-Za-z0-9_]+\.py)\b/\<close> at the head of \<open>s\<close>; \<open>pw\<close> tells whether
  the character before is a word character. The class of the group is the class of word
  characters, so the leading \<^verbatim>\<open>\b\<close> fails when \<open>pw\<close> holds, and only the longest run of word
  characters can be followed by the dot: a shorter run is followed by a word character.
\<close>

definition match_py :: "bool \<Rightarrow> string \<Rightarrow> string option" where
  "match_py pw s =
     (if pw then None
      else (let w = takeWhile is_word s; r = dropWhile is_word s
            in if w \<noteq> [] \<and> starts_with ''.py'' r \<and> \<not> word_ahead (drop 3 r)
               then Some (w @ ''.py'') else None))"

text \<open>The global replace: leftmost match, then on from the end of the match.\<close>

fun tag_files :: "bool \<Rightarrow> string \<Rightarrow> string" where
  "tag_files pw [] = []"
| "tag_files pw (c # s) =
     (case match_py pw (c # s) of
        Some m \<Rightarrow> wrap_file m @ tag_files True (drop (length m - 1) s)
      | None \<Rightarrow> c # tag_files (is_word c) s)"

subsection \<open>Pass 2: levels\<close>

definition level_words :: "string list" where
  "level_words = [''DEBUG'', ''INFO'', ''WARNING'', ''ERROR'', ''CRITICAL'', ''SUCCESS'',
     ''failed'', ''Connected'', ''SSE stream closed'']"

definition levelClasses :: "(string \<times> string) list" where
  "levelClasses = [(''DEBUG'', ''debug''), (''INFO'', ''info''), (''WARNING'', ''warning''),
     (''ERROR'', ''error''), (''CRITICAL'', ''critical''), (''SUCCESS'', ''success'')]"

definition loglvl_open :: "string \<Rightarrow> string" where
  "loglvl_open cls = ''<span class='' @ [CHR 0x22] @ ''loglvl '' @ cls @ [CHR 0x22] @ ''>''"

definition wrap_level :: "string \<Rightarrow> string" where
  "wrap_level m =
     (let key = toUpperCase m;
          cls = (case map_of levelClasses key of Some c \<Rightarrow> c | None \<Rightarrow> ''info'')
      in loglvl_open cls @ key @ span_close)"

text \<open>
  The flag \<^verbatim>\<open>i\<close> compares letters regardless of case. No alternative is a prefix of
  another one, so the first alternative that fits is the only one.
\<close>

definition ci_at :: "string \<Rightarrow> string \<Rightarrow> bool" where
  "ci_at p s \<longleftrightarrow> toUpperCase (take (length p) s) = toUpperCase p"

definition match_level :: "bool \<Rightarrow> string \<Rightarrow> string option" where
  "match_level pw s =
     (if pw then None
      else map_option (\<lambda>p. take (length p) s)
             (find (\<lambda>p. ci_at p s \<and> \<not> word_ahead (drop (length p) s)) level_words))"

fun tag_levels :: "bool \<Rightarrow> string \<Rightarrow> string" where
  "tag_levels pw [] = []"
| "tag_levels pw (c # s) =
     (case match_level pw (c # s) of
        Some m \<Rightarrow> wrap_level m @ tag_levels True (drop (length m - 1) s)
      | None \<Rightarrow> c # tag_levels (is_word c) s)"

subsection \<open>Pass 3: numbers outside tags\<close>

text \<open>
  \<^verbatim>\<open>html.split(/(<[^>]+>)/g)\<close>: the pieces of text between the matches, with the
  matches themselves (the capture group) in between, so that the chunks at odd indices are
  the tags. A match at \<^verbatim>\<open><\<close> takes the characters up to the next \<^verbatim>\<open>>\<close>, at least one.
\<close>

definition match_tag :: "string \<Rightarrow> string option" where
  "match_tag s =
     (case s of
        [] \<Rightarrow> None
      | c # r \<Rightarrow>
          (let body = takeWhile (\<lambda>x. x \<noteq> CHR ''>'') r
           in if c = CHR ''<'' \<and> body \<noteq> [] \<and> starts_with ''>'' (drop (length body) r)
              then Some (c # body @ ''>'') else None))"

fun split_tags :: "string \<Rightarrow> string \<Rightarrow> string list" where
  "split_tags acc [] = [acc]"
| "split_tags acc (c # s) =
     (case match_tag (c # s) of
        Some t \<Rightarrow> acc # t # split_tags [] (drop (length t - 1) s)
      | None \<Rightarrow> split_tags (acc @ [c]) s)"

definition number_open :: string where
  "number_open = ''<span class='' @ [CHR 0x22] @ ''number'' @ [CHR 0x22] @ ''>''"

definition line_number_open :: string where
  "line_number_open = ''<span class='' @ [CHR 0x22] @ ''line-number'' @ [CHR 0x22] @ ''>''"

text \<open>\<^verbatim>\<open>chunk.replace(/^\d+/, ...)\<close>: the digits at the very start of the chunk.\<close>

definition mark_line_number :: "string \<Rightarrow> string" where
  "mark_line_number chunk =
     (let d = takeWhile is_digit chunk
      in if d = [] then chunk
         else line_number_open @ d @ span_close @ drop (length d) chunk)"

text \<open>\<^verbatim>\<open>chunk.replace(/\b\d+\b/g, ...)\<close>: every run of digits with no word character
  on either side.\<close>

definition match_number :: "bool \<Rightarrow> string \<Rightarrow> string option" where
  "match_number pw s =
     (if pw then None
      else (let d = takeWhile is_digit s
            in if d \<noteq> [] \<and> \<not> word_ahead (drop (length d) s) then Some d else None))"

fun mark_numbers :: "bool \<Rightarrow> string \<Rightarrow> string" where
  "mark_numbers pw [] = []"
| "mark_numbers pw (c # s) =
     (case match_number pw (c # s) of
        Some d \<Rightarrow> number_open @ d @ span_close @ mark_numbers True (drop (length d - 1) s)
      | None \<Rightarrow> c # mark_numbers (is_word c) s)"

definition highlight_chunk :: "string \<Rightarrow> string" where
  "highlight_chunk chunk = mark_numbers False (mark_line_number chunk)"

text \<open>The callback of \<^verbatim>\<open>map((chunk, i) => ...)\<close>, from index \<open>i\<close> on.\<close>

fun map_chunks :: "nat \<Rightarrow> string list \<Rightarrow> string list" where
  "map_chunks i [] = []"
| "map_chunks i (chunk # cs) =
     (if i mod 2 \<noteq> 0 then chunk else highlight_chunk chunk) # map_chunks (Suc i) cs"

definition highlightNumbersOutsideTags :: "string \<Rightarrow> string" where
  "highlightNumbersOutsideTags html = concat (map_chunks 0 (split_tags [] html))"

subsection \<open>processLogLine\<close>

definition processLogLine :: "string \<Rightarrow> string" where
  "processLogLine line =
     highlightNumbersOutsideTags (tag_levels False (tag_files False line))"

subsection \<open>Reading decorated markup\<close>

text \<open>
  The chunks at even indices of the split are the text between the tags. Stripping the
  markup keeps them and drops the tags.
\<close>

fun text_chunks :: "string list \<Rightarrow> string list" where
  "text_chunks [] = []"
| "text_chunks [x] = [x]"
| "text_chunks (x # t # cs) = x # text_chunks cs"

definition strip_tags :: "string \<Rightarrow> string" where
  "strip_tags html = concat (text_chunks (split_tags [] html))"



section \<open>The console\<close>

subsection \<open>State\<close>

text \<open>
  The object \<^verbatim>\<open>state\<close> of the module, together with the parts of the page and of the
  browser that the functions read and write: the markup of the log element, the toggle
  image, the buffer indicator, the font slider \<^verbatim>\<open>#consoleFont\<close>, the local storage, the
  callbacks that \<^verbatim>\<open>setTimeout\<close> holds, and the count of \<^verbatim>\<open>EventSource\<close> objects
  created so far. An element that is \<^verbatim>\<open>null\<close> is \<open>None\<close>.
\<close>

record indicator =
  display :: string
  textContent :: string

record slider =
  slider_min :: int
  slider_max :: int
  slider_value :: string

record console_state =
  logConsole :: "string option"
  styleFontSize :: string
  consoleFontVar :: string
  toggleImg :: "string option"
  bufferIndicator :: "indicator option"
  fontSlider :: "slider option"
  fontSize :: int
  maxLines :: nat
  eventSource :: "nat option"
  isConsoleOn :: bool
  reconnectAttempts :: nat
  maxReconnect :: nat
  isUserScrolling :: bool
  autoScroll :: bool
  scrollTimeout :: bool
  logBuffer :: "string list"
  maxBufferSize :: nat
  fontKey :: string
  localStorage :: "string \<rightharpoonup> string"
  storageWritable :: bool
  pendingReconnects :: nat
  connections :: nat

text \<open>
  \<open>logConsole\<close> is the \<^verbatim>\<open>innerHTML\<close> of \<^verbatim>\<open>state.el.logConsole\<close>, read back as it was
  written; \<open>eventSource\<close> is \<open>Some n\<close> while \<^verbatim>\<open>state.eventSource\<close> holds the \<open>n\<close>-th
  \<^verbatim>\<open>EventSource\<close>; \<open>scrollTimeout\<close> tells whether the debounce callback is pending;
  \<open>pendingReconnects\<close> counts the callbacks scheduled by \<^verbatim>\<open>reconnect\<close> that have not
  run yet (their handles are not kept by the source); \<open>storageWritable\<close> is false when
  \<^verbatim>\<open>localStorage.setItem\<close> throws. \<^verbatim>\<open>scrollToBottom\<close> writes \<^verbatim>\<open>scrollTop\<close> only: the
  geometry of the viewport is not part of the state, and \<^verbatim>\<open>isAtBottom\<close> arrives with
  each event that reads it.
\<close>

definition initial :: console_state where
  "initial = \<lparr> logConsole = None, styleFontSize = [], consoleFontVar = [],
     toggleImg = None, bufferIndicator = None, fontSlider = None,
     fontSize = 12, maxLines = 200, eventSource = None, isConsoleOn = False,
     reconnectAttempts = 0, maxReconnect = 5, isUserScrolling = False, autoScroll = True,
     scrollTimeout = False, logBuffer = [], maxBufferSize = 1000,
     fontKey = ''Console.fontPx'', localStorage = Map.empty, storageWritable = True,
     pendingReconnects = 0, connections = 0 \<rparr>"

text \<open>The state once \<^verbatim>\<open>init\<close> has found the log element and the toggle image and has
  added the floating controls, on a desktop browser with nothing stored.\<close>

definition ready :: console_state where
  "ready = initial \<lparr> logConsole := Some [], styleFontSize := ''12px'',
     toggleImg := Some ''/web/images/off.png'',
     bufferIndicator := Some \<lparr> display = ''none'', textContent = [] \<rparr> \<rparr>"

subsection \<open>Splitting the markup into lines\<close>

text \<open>\<^verbatim>\<open>innerHTML.split('<br>')\<close>, \<^verbatim>\<open>lines.slice(-n)\<close> and \<^verbatim>\<open>join('<br>')\<close>.\<close>

fun split_br :: "string \<Rightarrow> string \<Rightarrow> string list" where
  "split_br acc [] = [acc]"
| "split_br acc (c # s) =
     (if starts_with ''<br>'' (c # s) then acc # split_br [] (drop 3 s)
      else split_br (acc @ [c]) s)"

fun join_br :: "string list \<Rightarrow> string" where
  "join_br [] = []"
| "join_br [x] = x"
| "join_br (x # y # ys) = x @ ''<br>'' @ join_br (y # ys)"

text \<open>\<^verbatim>\<open>slice(-0)\<close> is \<^verbatim>\<open>slice(0)\<close>, the whole array.\<close>

definition slice_last :: "nat \<Rightarrow> 'a list \<Rightarrow> 'a list" where
  "slice_last n xs = (if n = 0 then xs else drop (length xs - n) xs)"

subsection \<open>Buffer and rendering\<close>

definition updateBufferIndicator :: "console_state \<Rightarrow> console_state" where
  "updateBufferIndicator s =
     (case bufferIndicator s of
        None \<Rightarrow> s
      | Some ind \<Rightarrow>
          if length (logBuffer s) > 0
          then s \<lparr> bufferIndicator := Some \<lparr> display = ''block'',
                   textContent = dec (length (logBuffer s)) @ '' new logs'' \<rparr> \<rparr>
          else s \<lparr> bufferIndicator := Some (ind \<lparr> display := ''none'' \<rparr>) \<rparr>)"

definition cap_lines :: "nat \<Rightarrow> string \<Rightarrow> string" where
  "cap_lines n html =
     (let lines = split_br [] html
      in if length lines > n then join_br (slice_last n lines) else html)"

definition appendLogs :: "string \<Rightarrow> console_state \<Rightarrow> console_state" where
  "appendLogs raw s =
     (let clean = trim raw
      in case logConsole s of
           None \<Rightarrow> s
         | Some html \<Rightarrow>
             if clean = [] then s
             else if isUserScrolling s \<or> \<not> autoScroll s then
               (let s1 = s \<lparr> logBuffer := logBuffer s @ [clean] \<rparr>;
                    s2 = (if length (logBuffer s1) > maxBufferSize s1
                          then s1 \<lparr> logBuffer := tl (logBuffer s1) \<rparr> else s1)
                in updateBufferIndicator s2)
             else s \<lparr> logConsole :=
                        Some (cap_lines (maxLines s) (html @ processLogLine clean @ ''<br>'')) \<rparr>)"

text \<open>The loop of \<^verbatim>\<open>flushBuffer\<close> over the lines taken out of the buffer.\<close>

fun render_lines :: "string list \<Rightarrow> string \<Rightarrow> string" where
  "render_lines [] html = html"
| "render_lines (l # ls) html =
     (let t = trim l
      in if t = [] then render_lines ls html
         else render_lines ls (html @ processLogLine t @ ''<br>''))"

definition flushBuffer :: "console_state \<Rightarrow> console_state" where
  "flushBuffer s =
     (case logConsole s of
        None \<Rightarrow> s
      | Some html \<Rightarrow>
          if logBuffer s = [] then s
          else updateBufferIndicator
                 (s \<lparr> logBuffer := [], logConsole := Some (render_lines (logBuffer s) html) \<rparr>))"

definition forceBottom :: "console_state \<Rightarrow> console_state" where
  "forceBottom s =
     (if logConsole s = None then s
      else s \<lparr> isUserScrolling := False, autoScroll := True \<rparr>)"

subsection \<open>The stream\<close>

definition reconnect :: "console_state \<Rightarrow> console_state" where
  "reconnect s =
     (if reconnectAttempts s < maxReconnect s
      then s \<lparr> pendingReconnects := Suc (pendingReconnects s) \<rparr>
      else s \<lparr> isConsoleOn := False,
               toggleImg := map_option (\<lambda>_. ''/web/images/off.png'') (toggleImg s) \<rparr>)"

definition stopSSE :: "console_state \<Rightarrow> console_state" where
  "stopSSE s = s \<lparr> eventSource := None \<rparr>"

text \<open>\<open>throws\<close>: the constructor \<^verbatim>\<open>new EventSource\<close> raises, and the \<^verbatim>\<open>catch\<close> runs.\<close>

definition start :: "bool \<Rightarrow> console_state \<Rightarrow> console_state" where
  "start throws s =
     (let s1 = (stopSSE s) \<lparr> isConsoleOn := True \<rparr>
      in if throws then (if isConsoleOn s1 then reconnect s1 else s1)
         else s1 \<lparr> eventSource := Some (connections s1),
                   connections := Suc (connections s1) \<rparr>)"

text \<open>The handlers that \<^verbatim>\<open>start\<close> installs, and the callback that \<^verbatim>\<open>reconnect\<close> schedules.\<close>

definition onopen :: "console_state \<Rightarrow> console_state" where
  "onopen s = s \<lparr> reconnectAttempts := 0 \<rparr>"

definition onerror :: "bool \<Rightarrow> console_state \<Rightarrow> console_state" where
  "onerror isClosed s =
     (if eventSource s \<noteq> None \<and> isClosed
      then (let s1 = stopSSE s in if isConsoleOn s1 then reconnect s1 else s1)
      else s)"

definition retry :: "bool \<Rightarrow> console_state \<Rightarrow> console_state" where
  "retry throws s =
     (let s1 = start throws s in s1 \<lparr> reconnectAttempts := Suc (reconnectAttempts s1) \<rparr>)"

definition stop :: "console_state \<Rightarrow> console_state" where
  "stop s = updateBufferIndicator ((stopSSE s) \<lparr> reconnectAttempts := 0, logBuffer := [] \<rparr>)"

definition toggle :: "bool \<Rightarrow> console_state \<Rightarrow> console_state" where
  "toggle throws s =
     (let s1 = s \<lparr> isConsoleOn := \<not> isConsoleOn s \<rparr>
      in if isConsoleOn s1
         then (let s2 = start throws s1
               in s2 \<lparr> toggleImg := map_option (\<lambda>_. ''/web/images/on.png'') (toggleImg s2) \<rparr>)
         else (let s2 = stop s1
               in s2 \<lparr> toggleImg := map_option (\<lambda>_. ''/web/images/off.png'') (toggleImg s2) \<rparr>))"

subsection \<open>Font size\<close>

definition adjustFont :: "int \<Rightarrow> console_state \<Rightarrow> console_state" where
  "adjustFont delta s =
     (let s1 = s \<lparr> fontSize := fontSize s + delta \<rparr>
      in if logConsole s1 \<noteq> None
         then s1 \<lparr> styleFontSize := dec_int (fontSize s1) @ ''px'' \<rparr> else s1)"

text \<open>
  The argument \<open>px\<close> is a finite number. \<^verbatim>\<open>Math.round\<close> rounds to the nearest integer, a
  half upwards. The bounds are
  \<^verbatim>\<open>+inp.min || 2\<close> and \<^verbatim>\<open>+inp.max || 24\<close>: an attribute that reads as 0 gives the default.
  The attributes of the slider are taken to be integers, as the page writes them
  (\<^verbatim>\<open>min:'2', max:'24'\<close>). The fill of the slider track
  (\<^verbatim>\<open>inp.style.backgroundSize\<close>) is left out.
\<close>

definition js_round :: "real \<Rightarrow> int" where
  "js_round x = \<lfloor>x + 1 / 2\<rfloor>"

definition or_default :: "int \<Rightarrow> int \<Rightarrow> int" where
  "or_default a d = (if a = 0 then d else a)"

definition setFont :: "real \<Rightarrow> console_state \<Rightarrow> console_state" where
  "setFont px s =
     (let mn = (case fontSlider s of None \<Rightarrow> 2 | Some inp \<Rightarrow> or_default (slider_min inp) 2);
          mx = (case fontSlider s of None \<Rightarrow> 24 | Some inp \<Rightarrow> or_default (slider_max inp) 24);
          v = max mn (min mx (js_round px));
          s1 = s \<lparr> fontSize := v \<rparr>;
          s2 = (if logConsole s1 \<noteq> None
                then s1 \<lparr> styleFontSize := dec_int v @ ''px'',
                          consoleFontVar := dec_int v @ ''px'' \<rparr>
                else s1);
          s3 = (if storageWritable s2
                then s2 \<lparr> localStorage := (localStorage s2)(fontKey s2 \<mapsto> dec_int v) \<rparr>
                else s2)
      in case fontSlider s3 of
           None \<Rightarrow> s3
         | Some inp \<Rightarrow> s3 \<lparr> fontSlider := Some (inp \<lparr> slider_value := dec_int v \<rparr>) \<rparr>)"

subsection \<open>Scrolling\<close>

text \<open>The listeners of \<^verbatim>\<open>attachScrollUX\<close> and of the button of \<^verbatim>\<open>addFloatingUI\<close>;
  \<open>atBottom\<close> is what \<^verbatim>\<open>isAtBottom(lc)\<close> returns when the listener runs.\<close>

definition onscroll :: "bool \<Rightarrow> console_state \<Rightarrow> console_state" where
  "onscroll atBottom s =
     (let was = isUserScrolling s;
          s1 = s \<lparr> scrollTimeout := False, isUserScrolling := True \<rparr>;
          s2 = (if atBottom
                then (let s' = s1 \<lparr> autoScroll := True, isUserScrolling := False \<rparr>
                      in if was then flushBuffer s' else s')
                else s1 \<lparr> autoScroll := False \<rparr>)
      in s2 \<lparr> scrollTimeout := True \<rparr>)"

definition onwheel :: "console_state \<Rightarrow> console_state" where
  "onwheel s = s \<lparr> isUserScrolling := True, autoScroll := False, scrollTimeout := True \<rparr>"

definition scroll_settled :: "bool \<Rightarrow> console_state \<Rightarrow> console_state" where
  "scroll_settled atBottom s =
     (if atBottom then flushBuffer (s \<lparr> isUserScrolling := False, autoScroll := True \<rparr>)
      else s)"

definition scroll_button :: "console_state \<Rightarrow> console_state" where
  "scroll_button s = flushBuffer (s \<lparr> autoScroll := True, isUserScrolling := False \<rparr>)"

subsection \<open>Events\<close>

text \<open>
  Every callback runs to completion before the next one. An event of the stream is
  delivered only while \<^verbatim>\<open>state.eventSource\<close> holds the source (a closed source is silent),
  a timer fires only while it is pending, and the listeners on the log element exist only
  when \<^verbatim>\<open>init\<close> found it.
\<close>

datatype event =
    Message string
  | Open
  | Error bool
  | ReconnectTimer bool
  | Start bool
  | Stop
  | Toggle bool
  | Scroll bool
  | Wheel
  | ScrollTimer bool
  | ScrollButton
  | ForceBottom
  | SetFont real
  | AdjustFont int

fun step :: "event \<Rightarrow> console_state \<Rightarrow> console_state" where
  "step (Message raw) s = (if eventSource s = None then s else appendLogs raw s)"
| "step Open s = (if eventSource s = None then s else onopen s)"
| "step (Error isClosed) s = (if eventSource s = None then s else onerror isClosed s)"
| "step (ReconnectTimer throws) s =
     (if pendingReconnects s = 0 then s
      else retry throws (s \<lparr> pendingReconnects := pendingReconnects s - 1 \<rparr>))"
| "step (Start throws) s = start throws s"
| "step Stop s = stop s"
| "step (Toggle throws) s = toggle throws s"
| "step (Scroll atBottom) s = (if logConsole s = None then s else onscroll atBottom s)"
| "step Wheel s = (if logConsole s = None then s else onwheel s)"
| "step (ScrollTimer atBottom) s =
     (if scrollTimeout s then scroll_settled atBottom (s \<lparr> scrollTimeout := False \<rparr>) else s)"
| "step ScrollButton s = (if logConsole s = None then s else scroll_button s)"
| "step ForceBottom s = forceBottom s"
| "step (SetFont px) s = setFont px s"
| "step (AdjustFont delta) s = adjustFont delta s"

definition run :: "event list \<Rightarrow> console_state \<Rightarrow> console_state" where
  "run evs s = fold step evs s"

subsection \<open>Reconnection scenarios\<close>





subsection \<open>Buffer scenarios\<close>



text \<open>The view and the buffer agree: the log element exists, the two scroll flags say the
  same, and while the view is pinned nothing waits in the buffer.\<close>

definition settled :: "console_state \<Rightarrow> bool" where
  "settled s \<longleftrightarrow> logConsole s \<noteq> None \<and> isUserScrolling s = (\<not> autoScroll s)
     \<and> (autoScroll s \<longrightarrow> logBuffer s = [])"

subsection \<open>Decoration samples\<close>

text \<open>A line that has been decorated already: a file bubble and a highlighted number.\<close>

definition decorated_sample :: string where
  "decorated_sample =
     logfile_open 246 @ ''a.py'' @ span_close @ '' '' @ number_open @ ''12'' @ span_close"

subsection \<open>Notions for the comparison of a line with its decoration\<close>




text \<open>A character of the line and the character found in its place once the markup is
  stripped: the same, or its upper-case letter.\<close>

definition kept_or_upper :: "char \<Rightarrow> char \<Rightarrow> bool" where
  "kept_or_upper x y \<longleftrightarrow> y = x \<or> y = upper_char x"

section \<open>Properties of the buffer and of the rendered log\<close>

lemma run_Nil: "run [] s = s"
  by (simp add: run_def)

lemma run_Cons: "run (e # evs) s = run evs (step e s)"
  by (simp add: run_def)


lemma updateBufferIndicator_fields [simp]:
  "logBuffer (updateBufferIndicator s) = logBuffer s"
  "maxBufferSize (updateBufferIndicator s) = maxBufferSize s"
  "logConsole (updateBufferIndicator s) = logConsole s"
  "eventSource (updateBufferIndicator s) = eventSource s"
  "reconnectAttempts (updateBufferIndicator s) = reconnectAttempts s"
  "pendingReconnects (updateBufferIndicator s) = pendingReconnects s"
  "isUserScrolling (updateBufferIndicator s) = isUserScrolling s"
  "autoScroll (updateBufferIndicator s) = autoScroll s"
  by (simp_all add: updateBufferIndicator_def split: option.splits)

lemma appendLogs_maxBufferSize [simp]: "maxBufferSize (appendLogs raw s) = maxBufferSize s"
  by (simp add: appendLogs_def Let_def split: option.splits)


lemma flushBuffer_maxBufferSize [simp]: "maxBufferSize (flushBuffer s) = maxBufferSize s"
  by (simp add: flushBuffer_def split: option.splits)

lemma flushBuffer_logBuffer [simp]:
  "logBuffer (flushBuffer s) = (if logConsole s = None then logBuffer s else [])"
  by (simp add: flushBuffer_def split: option.splits)

lemma start_buffer [simp]:
  "logBuffer (start throws s) = logBuffer s"
  "maxBufferSize (start throws s) = maxBufferSize s"
  by (simp_all add: start_def stopSSE_def reconnect_def Let_def)










text \<open>
  Claim C1. The rendered log followed by the buffer should keep the order of arrival. With
  the view scrolled away, line a is buffered; \<^verbatim>\<open>forceBottom\<close> pins the view without a
  flush; line b, which arrives next, is rendered at once, ahead of a; the flush of the
  debounce timer then renders a behind b.
\<close>

theorem forceBottom_reorders:
  "logConsole (run [Wheel, Message ''a'', ForceBottom, Message ''b''] (start False ready))
     = Some ''b<br>''
   \<and> logBuffer (run [Wheel, Message ''a'', ForceBottom, Message ''b''] (start False ready))
     = [''a'']
   \<and> logConsole (run [Wheel, Message ''a'', ForceBottom, Message ''b'', ScrollTimer True]
        (start False ready)) = Some ''b<br>a<br>''"
  by code_simp

text \<open>The button of \<^verbatim>\<open>addFloatingUI\<close> pins the view as \<^verbatim>\<open>forceBottom\<close> does, and flushes.\<close>

lemma settled_ready: "settled ready"
  by (simp add: settled_def ready_def initial_def)

lemma settled_step: "settled s \<Longrightarrow> e \<noteq> ForceBottom \<Longrightarrow> settled (step e s)"
  by (cases e)
    (auto simp: settled_def appendLogs_def flushBuffer_def updateBufferIndicator_def
       onopen_def onerror_def retry_def start_def stop_def toggle_def stopSSE_def
       reconnect_def onscroll_def onwheel_def scroll_settled_def scroll_button_def
       setFont_def adjustFont_def Let_def split: option.splits if_splits)

lemma settled_run: "settled s \<Longrightarrow> ForceBottom \<notin> set evs \<Longrightarrow> settled (run evs s)"
  by (induction evs arbitrary: s) (auto simp: run_Nil run_Cons settled_step)

lemma scroll_button_keeps_order:
  "logConsole (run [Wheel, Message ''a'', ScrollButton, Message ''b''] (start False ready))
     = Some ''a<br>b<br>''"
  by code_simp

lemma trim_x: "trim ''x'' = ''x''"
  by code_simp

lemma processLogLine_x: "processLogLine ''x'' = ''x''"
  by code_simp

lemma render_lines_x:
  "render_lines (replicate n ''x'') html = html @ concat (replicate n ''x<br>'')"
  by (induction n arbitrary: html) (simp_all add: trim_x processLogLine_x)

lemma split_br_x: "length (split_br acc (concat (replicate n ''x<br>''))) = Suc n"
  by (induction n arbitrary: acc) (simp_all add: starts_with_def)

text \<open>The live append trims: with a cap of 2, the second line pushes the first one out
  (the empty piece after the last \<^verbatim>\<open><br>\<close> counts as a line of the split).\<close>

lemma appendLogs_trims:
  "logConsole (run [Message ''a'', Message ''b''] (start False (ready \<lparr> maxLines := 2 \<rparr>)))
     = Some ''b<br>''"
  by code_simp

text \<open>
  Claim C8. The rendered log should never hold more than \<^verbatim>\<open>maxLines\<close> lines. With the
  view scrolled away and 201 lines in the buffer, \<^verbatim>\<open>flushBuffer\<close> appends all of them
  to the empty log and trims nothing: the markup splits into 202 pieces, more than the cap
  of 200 that \<^verbatim>\<open>appendLogs\<close> enforces with the same split.
\<close>

theorem flushBuffer_exceeds_cap:
  "logConsole (flushBuffer (ready \<lparr> isUserScrolling := True, autoScroll := False,
       logBuffer := replicate 201 ''x'' \<rparr>)) = Some (concat (replicate 201 ''x<br>''))
   \<and> length (split_br [] (concat (replicate 201 ''x<br>''))) = 202
   \<and> maxLines (flushBuffer (ready \<lparr> isUserScrolling := True, autoScroll := False,
       logBuffer := replicate 201 ''x'' \<rparr>)) = 200"
  by (simp add: flushBuffer_def ready_def initial_def updateBufferIndicator_def
        render_lines_x split_br_x)

section \<open>Properties of the stream\<close>












lemma stop_effects:
  "eventSource (stop s) = None \<and> reconnectAttempts (stop s) = 0 \<and> logBuffer (stop s) = []
   \<and> logConsole (stop s) = logConsole s
   \<and> map_option display (bufferIndicator (stop s))
       = map_option (\<lambda>_. ''none'') (bufferIndicator s)
   \<and> pendingReconnects (stop s) = pendingReconnects s
   \<and> isConsoleOn (stop s) = isConsoleOn s
   \<and> stop (stop s) = stop s"
  by (simp add: stop_def stopSSE_def updateBufferIndicator_def split: option.splits)

text \<open>
  Claim C3. \<^verbatim>\<open>stop\<close> should cancel a pending reconnection, so that no stream is opened
  afterwards without \<^verbatim>\<open>start\<close> or \<^verbatim>\<open>toggle\<close>. The stream of a started console fails and
  a reconnection is scheduled; \<^verbatim>\<open>stop\<close> leaves the scheduled callback in place, and when
  it runs a second stream is opened and the console flag is on. The same happens when the
  console is switched off with \<^verbatim>\<open>toggle\<close>, whose image then shows off.
\<close>

theorem stop_keeps_reconnect_timer:
  "pendingReconnects (run [Error True] (start False ready)) = 1
   \<and> pendingReconnects (run [Error True, Stop] (start False ready)) = 1
   \<and> eventSource (run [Error True, Stop] (start False ready)) = None
   \<and> eventSource (run [Error True, Stop, ReconnectTimer False] (start False ready)) = Some 1
   \<and> connections (run [Error True, Stop, ReconnectTimer False] (start False ready)) = 2
   \<and> isConsoleOn (run [Error True, Stop, ReconnectTimer False] (start False ready))
   \<and> eventSource (run [Toggle False, Error True, Toggle False, ReconnectTimer False] ready)
       = Some 1
   \<and> toggleImg (run [Toggle False, Error True, Toggle False, ReconnectTimer False] ready)
       = Some ''/web/images/off.png''"
  by code_simp

section \<open>Properties of the font size\<close>

lemma setFont_persists:
  "storageWritable s \<Longrightarrow>
   localStorage (setFont px s) (fontKey s) = Some (dec_int (fontSize (setFont px s)))"
  by (simp add: setFont_def Let_def split: option.splits)

lemma setFont_clamps:
  "fontSlider s = None \<Longrightarrow> 2 \<le> fontSize (setFont px s) \<and> fontSize (setFont px s) \<le> 24"
  by (simp add: setFont_def Let_def)

text \<open>
  Claim C9. Every change of the font size should be written to the local storage, clamped
  to the bounds. \<^verbatim>\<open>adjustFont\<close> changes the size and the style of the log element and
  writes nothing: after \<^verbatim>\<open>adjustFont(1)\<close> on a fresh console the size is 13 and the storage
  holds no entry, and \<^verbatim>\<open>adjustFont(100)\<close> gives size 112, above the bound 24 that
  \<^verbatim>\<open>setFont(112)\<close> applies and stores.
\<close>

theorem adjustFont_not_persisted:
  "fontSize (adjustFont 1 ready) = 13
   \<and> styleFontSize (adjustFont 1 ready) = ''13px''
   \<and> localStorage (adjustFont 1 ready) (fontKey ready) = None
   \<and> fontSize (adjustFont 100 ready) = 112
   \<and> fontSize (setFont 112 ready) = 24
   \<and> localStorage (setFont 112 ready) (fontKey ready) = Some ''24''"
  by (simp add: adjustFont_def setFont_def js_round_def ready_def initial_def Let_def
        dec_int_def dec.simps digit_char_def)


section \<open>Properties of the decoration\<close>

subsection \<open>Tags and text chunks\<close>


lemma match_tag_Some:
  assumes "match_tag (c # s) = Some t"
  obtains body r where "c = CHR ''<''" "body \<noteq> []" "CHR ''>'' \<notin> set body"
    "t = CHR ''<'' # body @ ''>''" "s = body @ CHR ''>'' # r" "drop (length t - 1) s = r"
proof -
  let ?P = "\<lambda>x. x \<noteq> CHR ''>''"
  let ?body = "takeWhile ?P s"
  from assms have c: "c = CHR ''<''" and ne: "?body \<noteq> []"
    and st: "starts_with ''>'' (drop (length ?body) s)" and t: "t = c # ?body @ ''>''"
    by (auto simp: match_tag_def Let_def split: if_splits)
  from st obtain r where r: "dropWhile ?P s = CHR ''>'' # r"
    by (cases "dropWhile ?P s") (auto simp: starts_with_def dropWhile_eq_drop)
  have s: "s = ?body @ CHR ''>'' # r"
    using takeWhile_dropWhile_id [of ?P s] r by simp
  have d: "drop (length t - 1) s = r"
  proof -
    have "length t - 1 = Suc (length ?body)" using t by simp
    moreover have "drop (Suc (length ?body)) (?body @ CHR ''>'' # r) = r" by simp
    ultimately show ?thesis using s by metis
  qed
  have nb: "CHR ''>'' \<notin> set ?body"
    using set_takeWhileD [of "CHR ''>''" ?P s] by blast
  from t c have t': "t = CHR ''<'' # ?body @ ''>''" by simp
  show thesis by (rule that [OF c ne nb t' s d])
qed



text \<open>The split loses nothing: the chunks, put together again, are the input.\<close>

lemma concat_split_tags: "concat (split_tags acc s) = acc @ s"
proof (induction acc s rule: split_tags.induct)
  case (1 acc)
  show ?case by simp
next
  case (2 acc c s)
  show ?case
  proof (cases "match_tag (c # s)")
    case None
    with 2 show ?thesis by simp
  next
    case (Some t)
    then obtain body r where b: "c = CHR ''<''" "t = CHR ''<'' # body @ ''>''"
      "s = body @ CHR ''>'' # r" "drop (length t - 1) s = r"
      by (rule match_tag_Some)
    from 2(2) [OF Some] Some b show ?thesis by simp
  qed
qed

text \<open>
  A chunk at an odd index is a match of the tag pattern at its place in the input; inside
  a chunk at an even index the pattern matches nowhere (for the first chunk, from the end
  of the accumulator on).
\<close>

lemma split_tags_chunks:
  "split_tags acc s = cs1 @ c # cs2 \<Longrightarrow>
   (odd (length cs1) \<longrightarrow> match_tag (c @ concat cs2) = Some c)
   \<and> (even (length cs1) \<longrightarrow>
        (\<forall>k. (if cs1 = [] then length acc else 0) \<le> k \<and> k < length c \<longrightarrow>
           match_tag (drop k c @ concat cs2) = None))"
proof (induction acc s arbitrary: cs1 c cs2 rule: split_tags.induct)
  case (1 acc)
  then have "cs1 = []" "c = acc" by (simp_all add: Cons_eq_append_conv)
  then show ?case by auto
next
  case (2 acc x s)
  show ?case
  proof (cases "match_tag (x # s)")
    case None
    with 2 have split: "split_tags (acc @ [x]) s = cs1 @ c # cs2" by simp
    note IH = 2(1) [OF None split]
    show ?thesis
    proof (cases "cs1 = []")
      case False
      with IH show ?thesis by simp
    next
      case True
      have whole: "c @ concat cs2 = acc @ x # s"
        using concat_split_tags [of "acc @ [x]" s] split True by simp
      have "match_tag (drop k c @ concat cs2) = None"
        if k: "length acc \<le> k" "k < length c" for k
      proof (cases "k = length acc")
        case False
        with k IH True show ?thesis by simp
      next
        case eq: True
        have "drop k c @ concat cs2 = drop k (c @ concat cs2)" using k by simp
        also have "\<dots> = x # s" using whole eq by simp
        finally show ?thesis using None by simp
      qed
      with True show ?thesis by simp
    qed
  next
    case (Some t)
    then obtain body r where b: "x = CHR ''<''" "t = CHR ''<'' # body @ ''>''"
      "s = body @ CHR ''>'' # r" "drop (length t - 1) s = r"
      by (rule match_tag_Some)
    have xs: "x # s = t @ r" using b by simp
    from 2(3) Some b have split: "acc # t # split_tags [] r = cs1 @ c # cs2" by simp
    note IH = 2(2) [OF Some, unfolded b(4)]
    show ?thesis
    proof (cases cs1)
      case Nil
      with split show ?thesis by auto
    next
      case (Cons a cs1')
      with split have rest: "t # split_tags [] r = cs1' @ c # cs2" by simp
      show ?thesis
      proof (cases cs1')
        case Nil
        with rest have "c = t" "cs2 = split_tags [] r" by simp_all
        then have "match_tag (c @ concat cs2) = Some c"
          using Some xs concat_split_tags [of "[]" r] by simp
        with Cons Nil show ?thesis by simp
      next
        case (Cons a' cs1'')
        with rest have "split_tags [] r = cs1'' @ c # cs2" by simp
        from IH [OF this] \<open>cs1 = a # cs1'\<close> Cons show ?thesis by simp
      qed
    qed
  qed
qed

lemma map_chunks_parity: "i mod 2 = j mod 2 \<Longrightarrow> map_chunks i cs = map_chunks j cs"
proof (induction cs arbitrary: i j)
  case Nil
  show ?case by simp
next
  case (Cons c cs)
  from Cons.prems have "Suc i mod 2 = Suc j mod 2" by presburger
  from Cons.IH [OF this] Cons.prems show ?case by simp
qed

lemma map_chunks_append:
  "map_chunks i (xs @ ys) = map_chunks i xs @ map_chunks (i + length xs) ys"
  by (induction xs arbitrary: i) simp_all

lemma map_chunks_at_odd:
  "odd (length cs1) \<Longrightarrow>
   map_chunks 0 (cs1 @ c # cs2) = map_chunks 0 cs1 @ c # map_chunks 0 cs2"
proof -
  assume o: "odd (length cs1)"
  then have "length cs1 mod 2 \<noteq> 0" by presburger
  moreover have "map_chunks (Suc (length cs1)) cs2 = map_chunks 0 cs2"
    using o by (intro map_chunks_parity) presburger
  ultimately show ?thesis by (simp add: map_chunks_append)
qed

lemma map_chunks_at_even:
  "even (length cs1) \<Longrightarrow>
   map_chunks 0 (cs1 @ c # cs2) = map_chunks 0 cs1 @ highlight_chunk c # map_chunks 1 cs2"
proof -
  assume e: "even (length cs1)"
  then have "length cs1 mod 2 = 0" by presburger
  moreover have "map_chunks (Suc (length cs1)) cs2 = map_chunks 1 cs2"
    using e by (intro map_chunks_parity) presburger
  ultimately show ?thesis by (simp add: map_chunks_append)
qed

text \<open>
  Claim C6. Let the split of the input on the tag pattern be \<open>cs1 @ c # cs2\<close>. The chunks
  together are the input. When \<open>c\<close> stands at an odd index it is a tag of the input (the
  pattern \<^verbatim>\<open><[^>]+>\<close> matches exactly \<open>c\<close> there), and the pass emits it unchanged, between
  what it makes of the chunks before and of the chunks after. When \<open>c\<close> stands at an even
  index no tag begins anywhere inside it, so that every tag of the input is one of the
  chunks at odd indices, and only such text is highlighted. The input is arbitrary: it may
  be the output of an earlier pass.
\<close>

theorem tags_pass_unchanged:
  assumes split: "split_tags [] html = cs1 @ c # cs2"
  shows "html = concat cs1 @ c @ concat cs2
    \<and> (odd (length cs1) \<longrightarrow>
          match_tag (c @ concat cs2) = Some c
          \<and> highlightNumbersOutsideTags html
              = concat (map_chunks 0 cs1) @ c @ concat (map_chunks 0 cs2))
    \<and> (even (length cs1) \<longrightarrow>
          (\<forall>k<length c. match_tag (drop k c @ concat cs2) = None)
          \<and> highlightNumbersOutsideTags html
              = concat (map_chunks 0 cs1) @ highlight_chunk c @ concat (map_chunks 1 cs2))"
proof -
  have whole: "html = concat cs1 @ c @ concat cs2"
    using concat_split_tags [of "[]" html] split by simp
  from split_tags_chunks [OF split]
  have tag: "odd (length cs1) \<longrightarrow> match_tag (c @ concat cs2) = Some c"
    and plain: "even (length cs1) \<longrightarrow> (\<forall>k<length c. match_tag (drop k c @ concat cs2) = None)"
    by simp_all
  have "odd (length cs1) \<longrightarrow> highlightNumbersOutsideTags html
      = concat (map_chunks 0 cs1) @ c @ concat (map_chunks 0 cs2)"
    by (simp add: highlightNumbersOutsideTags_def split map_chunks_at_odd)
  moreover have "even (length cs1) \<longrightarrow> highlightNumbersOutsideTags html
      = concat (map_chunks 0 cs1) @ highlight_chunk c @ concat (map_chunks 1 cs2)"
    by (simp add: highlightNumbersOutsideTags_def split map_chunks_at_even)
  ultimately show ?thesis using whole tag plain by blast
qed

lemma sample_split:
  "split_tags [] decorated_sample
     = [[]] @ logfile_open 246
         # [''a.py'', span_close, '' '', number_open, ''12'', span_close, []]"
  unfolding decorated_sample_def by code_simp

lemma sample_chunks:
  "concat (map_chunks 0 [[]]) = []"
  "concat (map_chunks 0 [''a.py'', span_close, '' '', number_open, ''12'', span_close, []])
     = ''a.py'' @ span_close @ '' '' @ number_open @ line_number_open @ number_open @ ''12''
         @ span_close @ span_close @ span_close"
  by code_simp+

theorem tags_pass_unchanged_witness:
  "split_tags [] decorated_sample
     = [[]] @ logfile_open 246
         # [''a.py'', span_close, '' '', number_open, ''12'', span_close, []]
   \<and> odd (length [[] :: string])
   \<and> match_tag (logfile_open 246
        @ concat [''a.py'', span_close, '' '', number_open, ''12'', span_close, []])
       = Some (logfile_open 246)
   \<and> highlightNumbersOutsideTags decorated_sample
       = concat (map_chunks 0 [[]]) @ logfile_open 246
           @ concat (map_chunks 0
               [''a.py'', span_close, '' '', number_open, ''12'', span_close, []])
   \<and> concat (map_chunks 0 [''a.py'', span_close, '' '', number_open, ''12'', span_close, []])
       = ''a.py'' @ span_close @ '' '' @ number_open @ line_number_open @ number_open @ ''12''
           @ span_close @ span_close @ span_close"
proof -
  have o: "odd (length [[] :: string])" by simp
  from tags_pass_unchanged [OF sample_split] o
  have "match_tag (logfile_open 246
        @ concat [''a.py'', span_close, '' '', number_open, ''12'', span_close, []])
       = Some (logfile_open 246)"
    and "highlightNumbersOutsideTags decorated_sample
       = concat (map_chunks 0 [[]]) @ logfile_open 246
           @ concat (map_chunks 0
               [''a.py'', span_close, '' '', number_open, ''12'', span_close, []])"
    by blast+
  with sample_split o sample_chunks(2) show ?thesis by blast
qed

subsection \<open>Decorating twice\<close>






text \<open>
  Claim C5. Decorating a decorated line should give the same markup. The line
  \<^verbatim>\<open>a.py\<close> becomes one bubble of hue 286; decorating that output wraps the file name
  again, inside the first bubble.
\<close>

theorem file_bubble_wrapped_twice:
  "processLogLine ''a.py'' = logfile_open 286 @ ''a.py'' @ span_close
   \<and> processLogLine (processLogLine ''a.py'')
       = logfile_open 286 @ logfile_open 286 @ ''a.py'' @ span_close @ span_close
   \<and> processLogLine (processLogLine ''a.py'') \<noteq> processLogLine ''a.py''"
proof -
  have once: "processLogLine ''a.py'' = logfile_open 286 @ ''a.py'' @ span_close"
    by code_simp
  have twice: "processLogLine (logfile_open 286 @ ''a.py'' @ span_close)
       = logfile_open 286 @ logfile_open 286 @ ''a.py'' @ span_close @ span_close"
    by code_simp
  have "logfile_open 286 @ ''a.py'' @ span_close \<noteq> ''a.py''"
    by (simp add: logfile_open_def)
  with once twice show ?thesis by simp
qed

section \<open>What decoration does to the text\<close>

subsection \<open>Stripping\<close>


lemma strip_tags_Nil [simp]: "strip_tags [] = []"
  by (simp add: strip_tags_def)

















subsection \<open>The number pass on text\<close>













subsection \<open>Well-formed markup\<close>




subsection \<open>The file pass\<close>





subsection \<open>The level pass\<close>







lemma match_level_True [simp]: "match_level True s = None"
  by (simp add: match_level_def)













lemma kept_refl: "list_all2 kept_or_upper s s"
  by (simp add: list_all2_refl kept_or_upper_def)










end
